theory Spec2Isabelle
  imports Main "HOL-Library.Word"
begin

section \<open>The u-blox driver class \<open>Gps\<close> (ublox_gps/gps.h)\<close>

text \<open>
  The header declares the class \<open>Gps\<close> and defines its templates: \<open>initialize\<close>,
  the two \<open>subscribe\<close>, \<open>poll\<close>, \<open>read\<close> and \<open>configure\<close>, and the
  inline \<open>isInitialized\<close>, \<open>isConfigured\<close> and \<open>isOpen\<close>. The members are a
  record, the calls are functions on a state, and what the calls leave to the codec,
  to the transport and to the member functions defined outside the header is made
  explicit below.

  The model is sequential: one caller thread runs a call to its end, and the
  transport's thread dispatches received frames only while that caller blocks in a
  timed wait. Time is a logical clock in milliseconds that only a wait advances.
\<close>

subsection \<open>Data\<close>

type_synonym byte = "8 word"

text \<open>\<open>std::make_pair(T::CLASS_ID, T::MESSAGE_ID)\<close>, the key of \<open>Callbacks\<close>.\<close>

type_synonym identity = "byte \<times> byte"

text \<open>The decoded fields of a message, as the codec produces them.\<close>

type_synonym payload = "byte list"

text \<open>\<open>boost::posix_time::time_duration\<close>, in milliseconds.\<close>

type_synonym duration = nat

text \<open>\<open>enum { WAIT, ACK, NACK }\<close>, the type of the member \<open>acknowledge_\<close>.\<close>

datatype acknowledge = WAIT | ACK | NACK

text \<open>A \<open>StreamT\<close>: a serial port or a socket, open or not.\<close>

record stream =
  stream_name :: string
  stream_is_open :: bool

text \<open>Modelled from the spec: the transport worker of async_worker.h, made over a
  stream by \<open>new AsyncWorker<StreamT>(stream, io_service)\<close>. The header calls
  its \<open>isOpen()\<close> and its \<open>send(data, size)\<close>.\<close>

datatype worker = AsyncWorker stream

text \<open>Modelled from the spec: \<open>Worker::isOpen()\<close>, whether the stream is
  open.\<close>

fun worker_isOpen :: "worker \<Rightarrow> bool" where
  "worker_isOpen (AsyncWorker st) = stream_is_open st"

text \<open>
  Modelled from the spec: a \<open>CallbackHandler_\<close> of callback.h.
  \<open>subscribe\<close> builds it around the user's callback (the sink, named here by a
  number): the persistent handler. \<open>read\<close> builds it with no callback and waits
  on it: the one-shot handler, which holds the message it has received, if any.
\<close>

datatype handler = Persistent nat | OneShot "payload option"

text \<open>
  Modelled from the spec: \<open>Callbacks\<close> of callback.h, the registry, a
  \<open>std::multimap\<close> from identity to handler. An
  insertion returns an iterator that stays valid until that element is erased: the
  iterator is a token, and an entry is (token, identity, handler), kept in insertion
  order. \<open>Callbacks::iterator()\<close>, the value the failing \<open>subscribe\<close>
  returns, is \<open>None\<close>.
\<close>

type_synonym token = nat

type_synonym callbacks = "(token \<times> identity \<times> handler) list"

text \<open>The data members of \<open>Gps\<close> (the mutex and the static timeout apart). A
  name cannot end in an underscore here: the member \<open>worker_\<close> is the field
  \<open>worker\<close>, and so on.\<close>

record Gps =
  worker :: "worker option"
  configured :: bool
  acknowledge :: acknowledge
  baudrate :: "32 word"
  uart_in :: "16 word"
  uart_out :: "16 word"
  callbacks :: callbacks

text \<open>What is handed to \<open>ublox::Writer\<close>: a typed configuration message
  (\<open>writer.write(message)\<close> in \<open>configure\<close>), the rate message that
  \<open>setRate\<close> builds, or the request of a poll (identity and raw payload).\<close>

datatype outgoing =
    Config identity payload
  | RateConfig byte byte "32 word"
  | Request identity payload

text \<open>A frame the codec has extracted from the received bytes.\<close>

type_synonym frame = "identity \<times> payload"

text \<open>What the calls do to the outside, in the order they do it.\<close>

datatype event =
    Sent "byte list"
  | Inserted token identity
  | Erased token
  | Delivered nat payload

text \<open>
  The driver with its surroundings: the codec's serializer (message and capacity of
  the buffer to the bytes written, or failure), the frames still to arrive with their
  arrival times, the clock, and the events so far.
\<close>

record system =
  gps :: Gps
  serialize :: "outgoing \<Rightarrow> nat \<Rightarrow> byte list option"
  inbound :: "(nat \<times> frame) list"
  now :: nat
  history :: "event list"

subsection \<open>Constants\<close>

definition kWriterSize :: nat where
  "kWriterSize = 1024"

text \<open>\<open>kDefaultAckTimeout = 1.0\<close> (seconds), in milliseconds.\<close>

definition kDefaultAckTimeout :: duration where
  "kDefaultAckTimeout = 1000"

text \<open>Modelled from the spec: \<open>default_timeout_\<close>, the static member that the
  header declares and does not initialise, is the default timeout of an
  acknowledgment.\<close>

definition default_timeout :: duration where
  "default_timeout = kDefaultAckTimeout"

text \<open>Modelled from the spec: the reserved identity of the ACK control frame, which
  ublox_msgs defines (class 0x05, message 0x01 in the protocol).\<close>

definition ACK_ACK :: identity where
  "ACK_ACK = (0x05, 0x01)"

text \<open>Modelled from the spec: the reserved identity of the NACK control frame (class
  0x05, message 0x00 in the protocol).\<close>

definition ACK_NACK :: identity where
  "ACK_NACK = (0x05, 0x00)"

subsection \<open>The inline queries\<close>

definition isInitialized :: "Gps \<Rightarrow> bool" where
  "isInitialized g = (worker g \<noteq> None)"

definition isConfigured :: "Gps \<Rightarrow> bool" where
  "isConfigured g = (isInitialized g \<and> configured g)"

text \<open>\<open>worker_->isOpen()\<close>: with no worker the call dereferences a null pointer
  and has no defined result, which is \<open>None\<close> here.\<close>

definition isOpen :: "Gps \<Rightarrow> bool option" where
  "isOpen g = (case worker g of None \<Rightarrow> None | Some w \<Rightarrow> Some (worker_isOpen w))"

subsection \<open>initialize\<close>

text \<open>
  The generic template. The overload \<open>initialize(worker)\<close> that it calls is
  defined outside the header and is the parameter \<open>initialize_worker\<close>.
\<close>

definition initialize ::
  "(worker \<Rightarrow> Gps \<Rightarrow> Gps) \<Rightarrow> stream \<Rightarrow> 32 word \<Rightarrow> 16 word \<Rightarrow> 16 word \<Rightarrow> Gps \<Rightarrow> Gps" where
  "initialize initialize_worker st baudrate_arg uart_in_arg uart_out_arg g =
     (if worker g \<noteq> None then g
      else initialize_worker (AsyncWorker st) g)"

subsection \<open>The registry\<close>

text \<open>A token that no entry of the registry carries.\<close>

fun fresh_token :: "callbacks \<Rightarrow> token" where
  "fresh_token [] = 0"
| "fresh_token ((t, e) # cbs) = max (Suc t) (fresh_token cbs)"

definition tokens :: "callbacks \<Rightarrow> token list" where
  "tokens cbs = map fst cbs"

text \<open>Which identity is registered under which token.\<close>

definition registry_keys :: "callbacks \<Rightarrow> (token \<times> identity) list" where
  "registry_keys cbs = map (\<lambda>(t, i, h). (t, i)) cbs"

text \<open>\<open>callbacks_.insert(std::make_pair(key, handler))\<close>: the new entry gets a
  token of its own.\<close>

definition callbacks_insert :: "identity \<Rightarrow> handler \<Rightarrow> system \<Rightarrow> token \<times> system" where
  "callbacks_insert key h s =
     (let tok = fresh_token (callbacks (gps s))
      in (tok, s\<lparr>gps := (gps s)\<lparr>callbacks := callbacks (gps s) @ [(tok, key, h)]\<rparr>,
                  history := history s @ [Inserted tok key]\<rparr>))"

text \<open>\<open>callbacks_.erase(callback)\<close>.\<close>

definition callbacks_erase :: "token \<Rightarrow> system \<Rightarrow> system" where
  "callbacks_erase tok s =
     s\<lparr>gps := (gps s)\<lparr>callbacks := filter (\<lambda>e. fst e \<noteq> tok) (callbacks (gps s))\<rparr>,
       history := history s @ [Erased tok]\<rparr>"

text \<open>The handler behind a token.\<close>

definition handler_of :: "token \<Rightarrow> Gps \<Rightarrow> handler option" where
  "handler_of tok g = map_option snd (map_of (callbacks g) tok)"

text \<open>Modelled from the spec: what \<open>handler->wait(timeout)\<close> waits for, that
  the handler has received a message.\<close>

definition handler_received :: "token \<Rightarrow> Gps \<Rightarrow> bool" where
  "handler_received tok g =
     (case handler_of tok g of Some (OneShot (Some m)) \<Rightarrow> True | _ \<Rightarrow> False)"

text \<open>Modelled from the spec: \<open>handler->get()\<close>, the message received (the
  caller's own message when there is none).\<close>

definition handler_get :: "token \<Rightarrow> Gps \<Rightarrow> payload \<Rightarrow> payload" where
  "handler_get tok g dflt =
     (case handler_of tok g of Some (OneShot (Some m)) \<Rightarrow> m | _ \<Rightarrow> dflt)"

subsection \<open>The transport and the dispatcher\<close>

text \<open>Modelled from the spec: \<open>worker_->send(out.data(), size)\<close>. It returns
  nothing; the bytes are handed to the transport.\<close>

definition worker_send :: "byte list \<Rightarrow> system \<Rightarrow> system" where
  "worker_send bytes s = s\<lparr>history := history s @ [Sent bytes]\<rparr>"

text \<open>The byte sequences handed to the transport, in order.\<close>

fun sent_of :: "event \<Rightarrow> byte list list" where
  "sent_of (Sent b) = [b]"
| "sent_of (Inserted t i) = []"
| "sent_of (Erased t) = []"
| "sent_of (Delivered k m) = []"

definition sends :: "event list \<Rightarrow> byte list list" where
  "sends h = concat (map sent_of h)"

fun is_delivery :: "event \<Rightarrow> bool" where
  "is_delivery (Delivered k m) = True"
| "is_delivery (Sent b) = False"
| "is_delivery (Inserted t i) = False"
| "is_delivery (Erased t) = False"

text \<open>Modelled from the spec: a handler receiving a decoded message. A persistent
  handler keeps nothing; a one-shot handler buffers the first message it
  receives.\<close>

fun handle :: "payload \<Rightarrow> handler \<Rightarrow> handler" where
  "handle m (Persistent k) = Persistent k"
| "handle m (OneShot None) = OneShot (Some m)"
| "handle m (OneShot (Some old)) = OneShot (Some old)"

text \<open>Modelled from the spec: a persistent handler registered for the identity
  delivers the message to its sink.\<close>

fun sink_event :: "identity \<Rightarrow> payload \<Rightarrow> token \<times> identity \<times> handler \<Rightarrow> event list" where
  "sink_event i m (t, j, Persistent k) = (if j = i then [Delivered k m] else [])"
| "sink_event i m (t, j, OneShot old) = []"

text \<open>Modelled from the spec: \<open>forEach(identity, deliver)\<close> of section 4.1,
  every handler registered for the identity receives the message.\<close>

definition deliver :: "identity \<Rightarrow> payload \<Rightarrow> callbacks \<Rightarrow> callbacks" where
  "deliver i m cbs = map (\<lambda>(t, j, h). if j = i then (t, j, handle m h) else (t, j, h)) cbs"

text \<open>Modelled from the spec: \<open>readCallback\<close>, the dispatcher of section 4.2, on
  one extracted frame: every handler registered for the frame's identity receives
  it, and an ACK or NACK frame sets the acknowledgment state.\<close>

definition readCallback :: "frame \<Rightarrow> system \<Rightarrow> system" where
  "readCallback f s =
     (let i = fst f; m = snd f; g = gps s;
          g1 = g\<lparr>callbacks := deliver i m (callbacks g)\<rparr>;
          g2 = (if i = ACK_ACK then g1\<lparr>acknowledge := ACK\<rparr>
                else if i = ACK_NACK then g1\<lparr>acknowledge := NACK\<rparr>
                else g1)
      in s\<lparr>gps := g2,
           history := history s @ concat (map (sink_event i m) (callbacks g))\<rparr>)"

text \<open>Modelled from the spec: a timed wait of the caller. Until \<open>ready\<close> holds
  of the driver, the frames that arrive before the deadline are dispatched in their
  order of arrival; the wait ends with \<open>True\<close> as soon as \<open>ready\<close> holds and
  with \<open>False\<close> at the deadline.\<close>

fun wait_loop :: "(Gps \<Rightarrow> bool) \<Rightarrow> nat \<Rightarrow> (nat \<times> frame) list \<Rightarrow> system \<Rightarrow> bool \<times> system" where
  "wait_loop ready deadline [] s =
     (if ready (gps s) then (True, s\<lparr>inbound := []\<rparr>)
      else (False, s\<lparr>inbound := [], now := deadline\<rparr>))"
| "wait_loop ready deadline ((t, f) # rest) s =
     (if ready (gps s) then (True, s\<lparr>inbound := (t, f) # rest\<rparr>)
      else if t < deadline
      then wait_loop ready deadline rest (readCallback f (s\<lparr>now := max (now s) t\<rparr>))
      else (False, s\<lparr>inbound := (t, f) # rest, now := deadline\<rparr>))"

text \<open>Modelled from the spec: a wait of \<open>timeout\<close> milliseconds from now.\<close>

definition timed_wait :: "(Gps \<Rightarrow> bool) \<Rightarrow> duration \<Rightarrow> system \<Rightarrow> bool \<times> system" where
  "timed_wait ready timeout s = wait_loop ready (now s + timeout) (inbound s) s"

text \<open>Modelled from the spec: \<open>waitForAcknowledge(timeout)\<close>, section 4.3: block
  until the state leaves WAIT or the timeout elapses.\<close>

definition waitForAcknowledge :: "duration \<Rightarrow> system \<Rightarrow> system" where
  "waitForAcknowledge timeout s = snd (timed_wait (\<lambda>g. acknowledge g \<noteq> WAIT) timeout s)"

subsection \<open>configure, read, poll, subscribe\<close>

text \<open>\<open>configure(message, wait)\<close>. The buffer \<open>out\<close> has \<open>kWriterSize\<close>
  bytes; \<open>writer.write(message)\<close> is the serializer at that capacity, and the
  bytes up to \<open>writer.end()\<close> are what it returns.\<close>

definition configure :: "outgoing \<Rightarrow> bool \<Rightarrow> system \<Rightarrow> bool \<times> system" where
  "configure message wait s =
     (case worker (gps s) of
        None \<Rightarrow> (False, s)
      | Some w \<Rightarrow>
          (let s1 = s\<lparr>gps := (gps s)\<lparr>acknowledge := WAIT\<rparr>\<rparr>
           in case serialize s1 message kWriterSize of
                None \<Rightarrow> (False, s1)
              | Some out \<Rightarrow>
                  (let s2 = worker_send out s1
                   in if \<not> wait then (True, s2)
                      else (let s3 = waitForAcknowledge default_timeout s2
                            in (acknowledge (gps s3) = ACK, s3)))))"

text \<open>\<open>read(message, timeout)\<close>: the result and the out-parameter, which is
  assigned only when the wait succeeded.\<close>

definition read :: "identity \<Rightarrow> payload \<Rightarrow> duration \<Rightarrow> system \<Rightarrow> (bool \<times> payload) \<times> system" where
  "read T message timeout s =
     (case worker (gps s) of
        None \<Rightarrow> ((False, message), s)
      | Some w \<Rightarrow>
          (let (callback, s1) = callbacks_insert T (OneShot None) s;
               (fired, s2) = timed_wait (handler_received callback) timeout s1;
               message' = (if fired then handler_get callback (gps s2) message else message)
           in ((fired, message'), callbacks_erase callback s2)))"

text \<open>Modelled from the spec: \<open>poll(class_id, message_id, payload)\<close>, defined
  outside the header: it sends a request-for-data frame carrying the identity and
  the payload, and fails when the request cannot be sent.\<close>

definition poll_request :: "identity \<Rightarrow> payload \<Rightarrow> system \<Rightarrow> bool \<times> system" where
  "poll_request T pl s =
     (case worker (gps s) of
        None \<Rightarrow> (False, s)
      | Some w \<Rightarrow>
          (case serialize s (Request T pl) kWriterSize of
             None \<Rightarrow> (False, s)
           | Some out \<Rightarrow> (True, worker_send out s)))"

text \<open>\<open>poll(message, timeout)\<close>, the template: the request with the default,
  empty payload, then \<open>read\<close>.\<close>

definition poll :: "identity \<Rightarrow> payload \<Rightarrow> duration \<Rightarrow> system \<Rightarrow> (bool \<times> payload) \<times> system" where
  "poll T message timeout s =
     (let (ok, s1) = poll_request T [] s
      in if \<not> ok then ((False, message), s1)
         else read T message timeout s1)"

text \<open>Modelled from the spec: \<open>setRate(class_id, message_id, rate)\<close>, defined
  outside the header: it builds the rate-configuration message and delegates to
  \<open>configure\<close>, waiting for the acknowledgment.\<close>

definition setRate :: "byte \<Rightarrow> byte \<Rightarrow> 32 word \<Rightarrow> system \<Rightarrow> bool \<times> system" where
  "setRate class_id message_id rate s = configure (RateConfig class_id message_id rate) True s"

text \<open>\<open>subscribe(callback)\<close>: the iterator of the inserted handler.\<close>

definition subscribe :: "identity \<Rightarrow> nat \<Rightarrow> system \<Rightarrow> token option \<times> system" where
  "subscribe T callback s =
     (let (tok, s1) = callbacks_insert T (Persistent callback) s
      in (Some tok, s1))"

text \<open>\<open>subscribe(callback, rate)\<close>, the overload with a rate:
  \<open>Callbacks::iterator()\<close> when \<open>setRate\<close> fails.\<close>

definition subscribe_rate :: "identity \<Rightarrow> nat \<Rightarrow> 32 word \<Rightarrow> system \<Rightarrow> token option \<times> system" where
  "subscribe_rate T callback rate s =
     (let (ok, s1) = setRate (fst T) (snd T) rate s
      in if \<not> ok then (None, s1)
         else subscribe T callback s1)"

subsection \<open>Observations used in the statements\<close>

text \<open>The acknowledgment that a wait up to \<open>deadline\<close> observes, read off the
  frames to arrive: the first ACK or NACK frame that arrives before the deadline
  decides, and \<open>WAIT\<close> stands for none of them arriving in time.\<close>

fun first_reply :: "nat \<Rightarrow> (nat \<times> frame) list \<Rightarrow> acknowledge" where
  "first_reply deadline [] = WAIT"
| "first_reply deadline ((t, f) # rest) =
     (if t < deadline
      then (if fst f = ACK_ACK then ACK
            else if fst f = ACK_NACK then NACK
            else first_reply deadline rest)
      else WAIT)"

text \<open>Whether, along a sequence of events, a handler for \<open>T\<close> is in the registry
  at every send; \<open>live\<close> are the tokens registered for \<open>T\<close> so far.\<close>

fun listening_at_sends :: "identity \<Rightarrow> token list \<Rightarrow> event list \<Rightarrow> bool" where
  "listening_at_sends T live [] = True"
| "listening_at_sends T live (Sent b # es) = (live \<noteq> [] \<and> listening_at_sends T live es)"
| "listening_at_sends T live (Inserted t i # es) =
     listening_at_sends T (if i = T then t # live else live) es"
| "listening_at_sends T live (Erased t # es) = listening_at_sends T (removeAll t live) es"
| "listening_at_sends T live (Delivered k m # es) = listening_at_sends T live es"

subsection \<open>A concrete driver, for the examples\<close>

text \<open>A serializer that writes the identity and then the fields, and fails when they
  do not fit the buffer. It stands in for the codec in the examples only; the
  theorems hold for every serializer.\<close>

fun example_bytes :: "outgoing \<Rightarrow> byte list" where
  "example_bytes (Config T pl) = fst T # snd T # pl"
| "example_bytes (RateConfig c i r) = [6, 1, c, i, ucast r]"
| "example_bytes (Request T pl) = fst T # snd T # pl"

definition example_codec :: "outgoing \<Rightarrow> nat \<Rightarrow> byte list option" where
  "example_codec m capacity =
     (if capacity < length (example_bytes m) then None else Some (example_bytes m))"

definition example_worker :: worker where
  "example_worker = AsyncWorker \<lparr>stream_name = ''/dev/ttyACM0'', stream_is_open = True\<rparr>"

definition example_gps :: Gps where
  "example_gps =
     \<lparr>worker = Some example_worker, configured = True, acknowledge = ACK,
      baudrate = 9600, uart_in = 1, uart_out = 1, callbacks = []\<rparr>"

definition fresh_gps :: Gps where
  "fresh_gps =
     \<lparr>worker = None, configured = False, acknowledge = WAIT,
      baudrate = 0, uart_in = 0, uart_out = 0, callbacks = []\<rparr>"

definition example_system :: "Gps \<Rightarrow> (nat \<times> frame) list \<Rightarrow> system" where
  "example_system g inb =
     \<lparr>gps = g, serialize = example_codec, inbound = inb, now = 0, history = []\<rparr>"

text \<open>The identity of a navigation message, and a message of 2000 bytes.\<close>

definition NAV_PVT :: identity where
  "NAV_PVT = (0x01, 0x07)"

definition oversized :: outgoing where
  "oversized = Config (0x06, 0x00) (replicate 2000 0)"

section \<open>Lemmas about the registry, the dispatcher and the waits\<close>

lemma fresh_token_above: "e \<in> set cbs \<Longrightarrow> fst e < fresh_token cbs"
  by (induction cbs) (auto simp: less_max_iff_disj)

lemma registry_keys_deliver: "registry_keys (deliver i m cbs) = registry_keys cbs"
  by (induction cbs) (auto simp: registry_keys_def deliver_def)

lemma sends_append: "sends (h @ h') = sends h @ sends h'"
  by (simp add: sends_def)

lemma sends_single: "sends [e] = sent_of e"
  by (simp add: sends_def)

lemma sends_sink_events: "sends (concat (map (sink_event i m) cbs)) = []"
proof (induction cbs)
  case Nil
  then show ?case by (simp add: sends_def)
next
  case (Cons e cbs)
  obtain t j h where e: "e = (t, j, h)" by (cases e)
  show ?case using Cons by (cases h) (simp_all add: e sends_def)
qed

lemma deliveries_sink_events: "\<forall>e \<in> set (concat (map (sink_event i m) cbs)). is_delivery e"
proof (induction cbs)
  case Nil
  then show ?case by simp
next
  case (Cons e cbs)
  obtain t j h where e: "e = (t, j, h)" by (cases e)
  show ?case using Cons by (cases h) (auto simp: e)
qed

lemma readCallback_fields:
  "worker (gps (readCallback f s)) = worker (gps s)"
  "serialize (readCallback f s) = serialize s"
  "inbound (readCallback f s) = inbound s"
  "now (readCallback f s) = now s"
  "registry_keys (callbacks (gps (readCallback f s))) = registry_keys (callbacks (gps s))"
  "sends (history (readCallback f s)) = sends (history s)"
  by (simp_all add: readCallback_def Let_def registry_keys_deliver sends_append sends_sink_events)

lemma wait_loop_keys:
  "registry_keys (callbacks (gps (snd (wait_loop ready d inb s)))) = registry_keys (callbacks (gps s))"
  by (induction inb arbitrary: s) (auto simp: readCallback_fields)

lemma wait_loop_sends: "sends (history (snd (wait_loop ready d inb s))) = sends (history s)"
  by (induction inb arbitrary: s) (auto simp: readCallback_fields)

lemma wait_loop_now:
  "now s \<le> d \<Longrightarrow> now s \<le> now (snd (wait_loop ready d inb s)) \<and> now (snd (wait_loop ready d inb s)) \<le> d"
proof (induction inb arbitrary: s)
  case Nil
  then show ?case by simp
next
  case (Cons a inb)
  obtain t f where a: "a = (t, f)" by (cases a)
  show ?case
  proof (cases "\<not> ready (gps s) \<and> t < d")
    case True
    let ?s = "readCallback f (s\<lparr>now := max (now s) t\<rparr>)"
    have "now ?s \<le> d" using True Cons.prems by (simp add: readCallback_fields)
    from Cons.IH [OF this] True Cons.prems show ?thesis
      by (simp add: a readCallback_fields)
  next
    case False
    then show ?thesis using Cons.prems by (auto simp: a)
  qed
qed

lemma wait_loop_history:
  "\<exists>ds. history (snd (wait_loop ready d inb s)) = history s @ ds \<and> (\<forall>e \<in> set ds. is_delivery e)"
proof (induction inb arbitrary: s)
  case Nil
  then show ?case by simp
next
  case (Cons a inb)
  obtain t f where a: "a = (t, f)" by (cases a)
  show ?case
  proof (cases "\<not> ready (gps s) \<and> t < d")
    case True
    let ?s = "readCallback f (s\<lparr>now := max (now s) t\<rparr>)"
    let ?es = "concat (map (sink_event (fst f) (snd f)) (callbacks (gps s)))"
    have h: "history ?s = history s @ ?es" by (simp add: readCallback_def Let_def)
    from Cons.IH [of ?s] obtain ds where
      ds: "history (snd (wait_loop ready d inb ?s)) = history ?s @ ds" "\<forall>e \<in> set ds. is_delivery e"
      by blast
    have "history (snd (wait_loop ready d (a # inb) s)) = history s @ (?es @ ds)"
      using True ds(1) h by (simp add: a)
    moreover have "\<forall>e \<in> set (?es @ ds). is_delivery e"
      using ds(2) deliveries_sink_events [of "fst f" "snd f" "callbacks (gps s)"] by auto
    ultimately show ?thesis by blast
  next
    case False
    then show ?thesis by (auto simp: a)
  qed
qed


lemma wait_loop_ready: "ready (gps s) \<Longrightarrow> wait_loop ready d inb s = (True, s\<lparr>inbound := inb\<rparr>)"
  by (cases inb) auto

lemma readCallback_acknowledge:
  "acknowledge (gps (readCallback f s)) =
     (if fst f = ACK_ACK then ACK else if fst f = ACK_NACK then NACK else acknowledge (gps s))"
  by (simp add: readCallback_def Let_def)

lemma wait_loop_first_reply:
  "acknowledge (gps s) = WAIT \<Longrightarrow>
   acknowledge (gps (snd (wait_loop (\<lambda>g. acknowledge g \<noteq> WAIT) d inb s))) = first_reply d inb"
proof (induction inb arbitrary: s)
  case Nil
  then show ?case by simp
next
  case (Cons a inb)
  obtain t f where a: "a = (t, f)" by (cases a)
  let ?s = "readCallback f (s\<lparr>now := max (now s) t\<rparr>)"
  show ?case
  proof (cases "t < d")
    case False
    then show ?thesis using Cons.prems by (simp add: a)
  next
    case True
    show ?thesis
    proof (cases "fst f = ACK_ACK \<or> fst f = ACK_NACK")
      case True
      then have "acknowledge (gps ?s) \<noteq> WAIT"
        by (auto simp: readCallback_acknowledge)
      then have "wait_loop (\<lambda>g. acknowledge g \<noteq> WAIT) d inb ?s = (True, ?s\<lparr>inbound := inb\<rparr>)"
        by (rule wait_loop_ready)
      then show ?thesis using \<open>t < d\<close> True Cons.prems
        by (auto simp: a readCallback_acknowledge)
    next
      case False
      then have "acknowledge (gps ?s) = WAIT"
        using Cons.prems by (simp add: readCallback_acknowledge)
      from Cons.IH [OF this] show ?thesis using \<open>t < d\<close> False Cons.prems
        by (simp add: a)
    qed
  qed
qed

lemma tokens_keys: "tokens cbs = map fst (registry_keys cbs)"
  by (induction cbs) (auto simp: tokens_def registry_keys_def)

lemma fresh_token_tokens: "fresh_token cbs = foldr (\<lambda>t a. max (Suc t) a) (tokens cbs) 0"
  by (induction cbs) (auto simp: tokens_def)

lemma fresh_token_keys:
  "registry_keys cbs = registry_keys cbs' \<Longrightarrow> fresh_token cbs = fresh_token cbs'"
  by (simp add: fresh_token_tokens tokens_keys)

lemma registry_keys_filter:
  "registry_keys (filter (\<lambda>e. fst e \<noteq> tok) cbs) = filter (\<lambda>k. fst k \<noteq> tok) (registry_keys cbs)"
  by (induction cbs) (auto simp: registry_keys_def)

lemma filter_keys_fresh:
  "filter (\<lambda>k. fst k \<noteq> fresh_token cbs) (registry_keys cbs) = registry_keys cbs"
proof -
  have "\<forall>k \<in> set (registry_keys cbs). fst k \<noteq> fresh_token cbs"
    using fresh_token_above [of _ cbs] by (fastforce simp: registry_keys_def)
  then show ?thesis by (simp add: filter_id_conv)
qed

text \<open>What \<open>read\<close> does on an initialised driver, step by step.\<close>

lemma read_initialised:
  assumes "worker (gps s) = Some w"
  shows "read T message timeout s =
    (let tok = fresh_token (callbacks (gps s));
         s1 = snd (callbacks_insert T (OneShot None) s);
         r = timed_wait (handler_received tok) timeout s1
     in ((fst r, if fst r then handler_get tok (gps (snd r)) message else message),
         callbacks_erase tok (snd r)))"
  using assms by (simp add: read_def callbacks_insert_def Let_def split: prod.splits)

lemma read_keys:
  "registry_keys (callbacks (gps (snd (read T message timeout s)))) = registry_keys (callbacks (gps s))"
proof (cases "worker (gps s)")
  case None
  then show ?thesis by (simp add: read_def)
next
  case (Some w)
  let ?tok = "fresh_token (callbacks (gps s))"
  let ?s1 = "snd (callbacks_insert T (OneShot None) s)"
  let ?s2 = "snd (timed_wait (handler_received ?tok) timeout ?s1)"
  have k1: "registry_keys (callbacks (gps ?s1)) = registry_keys (callbacks (gps s)) @ [(?tok, T)]"
    by (simp add: callbacks_insert_def Let_def registry_keys_def)
  have k2: "registry_keys (callbacks (gps ?s2)) = registry_keys (callbacks (gps ?s1))"
    by (simp add: timed_wait_def wait_loop_keys)
  have "registry_keys (callbacks (gps (callbacks_erase ?tok ?s2)))
      = filter (\<lambda>k. fst k \<noteq> ?tok) (registry_keys (callbacks (gps ?s2)))"
    by (simp add: callbacks_erase_def registry_keys_filter)
  also have "\<dots> = registry_keys (callbacks (gps s))"
    by (simp add: k1 k2 filter_keys_fresh)
  finally show ?thesis
    by (simp add: read_initialised [OF Some] Let_def)
qed

lemma read_history:
  assumes "worker (gps s) = Some w"
  shows "\<exists>ds. history (snd (read T message timeout s))
              = history s @ [Inserted (fresh_token (callbacks (gps s))) T] @ ds
                @ [Erased (fresh_token (callbacks (gps s)))]
            \<and> (\<forall>e \<in> set ds. is_delivery e)"
proof -
  let ?tok = "fresh_token (callbacks (gps s))"
  let ?s1 = "snd (callbacks_insert T (OneShot None) s)"
  let ?s2 = "snd (timed_wait (handler_received ?tok) timeout ?s1)"
  have h1: "history ?s1 = history s @ [Inserted ?tok T]"
    by (simp add: callbacks_insert_def Let_def)
  obtain ds where ds: "history ?s2 = history ?s1 @ ds" "\<forall>e \<in> set ds. is_delivery e"
    using wait_loop_history [of "handler_received ?tok" "now ?s1 + timeout" "inbound ?s1" ?s1]
    by (auto simp: timed_wait_def)
  have "history (snd (read T message timeout s)) = history s @ [Inserted ?tok T] @ ds @ [Erased ?tok]"
    using h1 ds(1) by (simp add: read_initialised [OF assms] Let_def callbacks_erase_def)
  with ds(2) show ?thesis by blast
qed

lemma read_sends: "sends (history (snd (read T message timeout s))) = sends (history s)"
proof (cases "worker (gps s)")
  case None
  then show ?thesis by (simp add: read_def)
next
  case (Some w)
  show ?thesis
    by (simp add: read_initialised [OF Some] Let_def callbacks_erase_def callbacks_insert_def
        timed_wait_def sends_append wait_loop_sends sends_single)
qed

lemma configure_nowait:
  assumes "worker (gps s) = Some w" and "serialize s message kWriterSize = Some out"
  shows "configure message False s = (True, worker_send out (s\<lparr>gps := (gps s)\<lparr>acknowledge := WAIT\<rparr>\<rparr>))"
  using assms by (simp add: configure_def)

lemma configure_wait:
  assumes "worker (gps s) = Some w" and "serialize s message kWriterSize = Some out"
  shows "configure message True s =
    (let s3 = waitForAcknowledge default_timeout
                (worker_send out (s\<lparr>gps := (gps s)\<lparr>acknowledge := WAIT\<rparr>\<rparr>))
     in (acknowledge (gps s3) = ACK, s3))"
  using assms by (simp add: configure_def Let_def)

lemma waitForAcknowledge_fields:
  "registry_keys (callbacks (gps (waitForAcknowledge timeout s))) = registry_keys (callbacks (gps s))"
  "sends (history (waitForAcknowledge timeout s)) = sends (history s)"
  by (simp_all add: waitForAcknowledge_def timed_wait_def wait_loop_keys wait_loop_sends)

lemma configure_keys:
  "registry_keys (callbacks (gps (snd (configure message wait s)))) = registry_keys (callbacks (gps s))"
  by (simp add: configure_def Let_def waitForAcknowledge_fields worker_send_def
      split: option.splits)

lemma configure_sends:
  assumes "worker (gps s) = Some w" and "serialize s message kWriterSize = Some out"
  shows "sends (history (snd (configure message wait s))) = sends (history s) @ [out]"
  using assms
  by (simp add: configure_def Let_def waitForAcknowledge_fields worker_send_def sends_append sends_single)

lemma fresh_token_notin: "fresh_token cbs \<notin> set (tokens cbs)"
proof
  assume "fresh_token cbs \<in> set (tokens cbs)"
  then obtain e where "e \<in> set cbs" "fst e = fresh_token cbs"
    by (auto simp: tokens_def)
  with fresh_token_above [of e cbs] show False by simp
qed

lemma poll_initialised:
  assumes "worker (gps s) = Some w" and "serialize s (Request T []) kWriterSize = Some out"
  shows "poll T message timeout s = read T message timeout (worker_send out s)"
  using assms by (simp add: poll_def poll_request_def)

lemma worker_send_fields:
  "gps (worker_send out s) = gps s"
  "history (worker_send out s) = history s @ [Sent out]"
  "now (worker_send out s) = now s"
  "inbound (worker_send out s) = inbound s"
  "serialize (worker_send out s) = serialize s"
  by (simp_all add: worker_send_def)

section \<open>The concrete driver\<close>

lemma example_fields:
  "serialize (example_system g inb) = example_codec"
  "worker (gps (example_system example_gps inb)) = Some example_worker"
  "worker (gps (example_system fresh_gps inb)) = None"
  "now (example_system g inb) = 0"
  "inbound (example_system g inb) = inb"
  "history (example_system g inb) = []"
  "callbacks (gps (example_system example_gps inb)) = []"
  "acknowledge (gps (example_system example_gps inb)) = ACK"
  by (simp_all add: example_system_def example_gps_def fresh_gps_def)

lemma example_codec_small:
  "example_codec (Config (6, 0) [1, 2]) kWriterSize = Some [6, 0, 1, 2]"
  "example_codec (Request NAV_PVT []) kWriterSize = Some [1, 7]"
  "example_codec (RateConfig 1 7 1) kWriterSize = Some [6, 1, 1, 7, 1]"
  "example_codec oversized kWriterSize = None"
  by (simp_all add: example_codec_def kWriterSize_def NAV_PVT_def oversized_def)

lemma example_rate_nack:
  "configure (RateConfig 1 7 1) True (example_system example_gps [(7, ACK_NACK, [6, 1])])
     = (False, \<lparr>gps = example_gps\<lparr>acknowledge := NACK\<rparr>, serialize = example_codec,
                inbound = [], now = 7, history = [Sent [6, 1, 1, 7, 1]]\<rparr>)"
  by (simp add: configure_def example_system_def example_gps_def example_codec_def kWriterSize_def
      worker_send_def waitForAcknowledge_def timed_wait_def readCallback_def deliver_def
      ACK_ACK_def ACK_NACK_def default_timeout_def kDefaultAckTimeout_def Let_def)

lemma example_rate_ack:
  "configure (RateConfig 1 7 1) True (example_system example_gps [(7, ACK_ACK, [6, 1])])
     = (True, \<lparr>gps = example_gps, serialize = example_codec,
               inbound = [], now = 7, history = [Sent [6, 1, 1, 7, 1]]\<rparr>)"
  by (simp add: configure_def example_system_def example_gps_def example_codec_def kWriterSize_def
      worker_send_def waitForAcknowledge_def timed_wait_def readCallback_def deliver_def
      ACK_ACK_def ACK_NACK_def default_timeout_def kDefaultAckTimeout_def Let_def)

section \<open>The claims\<close>

text \<open>
  C1. On an initialised driver, for a message whose serialization succeeds:
  \<open>configure(message, false)\<close> returns true right after the send, without
  waiting; \<open>configure(message, true)\<close> waits for at most the default timeout and
  returns true exactly when the acknowledgment state after the wait is ACK, which
  is when an ACK frame is the first ACK or NACK frame to arrive before the timeout.
  A NACK, or neither before the timeout, gives false.
\<close>

theorem configure_returns:
  assumes "worker (gps s) = Some w" and "serialize s message kWriterSize = Some out"
  shows "fst (configure message False s)
       \<and> sends (history (snd (configure message False s))) = sends (history s) @ [out]
       \<and> now (snd (configure message False s)) = now s
       \<and> fst (configure message True s) = (acknowledge (gps (snd (configure message True s))) = ACK)
       \<and> acknowledge (gps (snd (configure message True s)))
           = first_reply (now s + default_timeout) (inbound s)
       \<and> now (snd (configure message True s)) \<le> now s + default_timeout"
proof -
  let ?s2 = "worker_send out (s\<lparr>gps := (gps s)\<lparr>acknowledge := WAIT\<rparr>\<rparr>)"
  have nowait: "configure message False s = (True, ?s2)"
    using assms by (rule configure_nowait)
  have wait: "configure message True s =
      (acknowledge (gps (waitForAcknowledge default_timeout ?s2)) = ACK,
       waitForAcknowledge default_timeout ?s2)"
    using configure_wait [OF assms] by (simp add: Let_def)
  have a: "acknowledge (gps ?s2) = WAIT" by (simp add: worker_send_def)
  have r: "acknowledge (gps (waitForAcknowledge default_timeout ?s2))
         = first_reply (now s + default_timeout) (inbound s)"
    using wait_loop_first_reply [OF a, of "now ?s2 + default_timeout" "inbound ?s2"]
    by (simp add: waitForAcknowledge_def timed_wait_def worker_send_def)
  have "now ?s2 \<le> now ?s2 + default_timeout" by simp
  from wait_loop_now [OF this, of "\<lambda>g. acknowledge g \<noteq> WAIT" "inbound ?s2"]
  have t: "now (waitForAcknowledge default_timeout ?s2) \<le> now s + default_timeout"
    by (simp add: waitForAcknowledge_def timed_wait_def worker_send_def)
  show ?thesis
    using r t by (simp add: nowait wait worker_send_def sends_append sends_single)
qed

theorem configure_returns_witness:
  "worker (gps (example_system example_gps [(5, NAV_PVT, [1]), (7, ACK_ACK, [6, 0])])) = Some example_worker
   \<and> serialize (example_system example_gps [(5, NAV_PVT, [1]), (7, ACK_ACK, [6, 0])]) (Config (6, 0) [1, 2]) kWriterSize
       = Some [6, 0, 1, 2]
   \<and> fst (configure (Config (6, 0) [1, 2]) False (example_system example_gps [(5, NAV_PVT, [1]), (7, ACK_ACK, [6, 0])]))
   \<and> fst (configure (Config (6, 0) [1, 2]) True (example_system example_gps [(5, NAV_PVT, [1]), (7, ACK_ACK, [6, 0])]))
   \<and> \<not> fst (configure (Config (6, 0) [1, 2]) True (example_system example_gps [(5, NAV_PVT, [1]), (7, ACK_NACK, [6, 0])]))
   \<and> \<not> fst (configure (Config (6, 0) [1, 2]) True (example_system example_gps [(5, NAV_PVT, [1]), (1000, ACK_ACK, [6, 0])]))"
proof -
  have w: "\<And>inb. worker (gps (example_system example_gps inb)) = Some example_worker"
    by (simp add: example_system_def example_gps_def)
  have c: "\<And>inb. serialize (example_system example_gps inb) (Config (6, 0) [1, 2]) kWriterSize
      = Some [6, 0, 1, 2]"
    by (simp add: example_system_def example_codec_def kWriterSize_def)
  have i: "\<And>inb. inbound (example_system example_gps inb) = inb"
       "\<And>inb. now (example_system example_gps inb) = 0"
    by (simp_all add: example_system_def)
  have d: "ACK_ACK \<noteq> NAV_PVT" "ACK_NACK \<noteq> NAV_PVT" "ACK_NACK \<noteq> ACK_ACK"
    by (simp_all add: ACK_ACK_def ACK_NACK_def NAV_PVT_def)
  have 1: "fst (configure (Config (6, 0) [1, 2]) False (example_system example_gps [(5, NAV_PVT, [1]), (7, ACK_ACK, [6, 0])]))"
    using configure_returns [OF w c, of "[(5, NAV_PVT, [1]), (7, ACK_ACK, [6, 0])]"] by blast
  have 2: "fst (configure (Config (6, 0) [1, 2]) True (example_system example_gps [(5, NAV_PVT, [1]), (7, ACK_ACK, [6, 0])]))"
    using configure_returns [OF w c, of "[(5, NAV_PVT, [1]), (7, ACK_ACK, [6, 0])]"] d
    by (simp add: i default_timeout_def kDefaultAckTimeout_def)
  have 3: "\<not> fst (configure (Config (6, 0) [1, 2]) True (example_system example_gps [(5, NAV_PVT, [1]), (7, ACK_NACK, [6, 0])]))"
    using configure_returns [OF w c, of "[(5, NAV_PVT, [1]), (7, ACK_NACK, [6, 0])]"] d
    by (simp add: i default_timeout_def kDefaultAckTimeout_def)
  have 4: "\<not> fst (configure (Config (6, 0) [1, 2]) True (example_system example_gps [(5, NAV_PVT, [1]), (1000, ACK_ACK, [6, 0])]))"
    using configure_returns [OF w c, of "[(5, NAV_PVT, [1]), (1000, ACK_ACK, [6, 0])]"] d
    by (simp add: i default_timeout_def kDefaultAckTimeout_def)
  show ?thesis using 1 2 3 4 by (simp add: w c)
qed

text \<open>
  C2, as the code has it. \<open>read\<close> registers its one-shot handler before it
  starts to wait, erases it at the end, and sends nothing. \<open>poll\<close> hands the
  request-for-data frame to the transport first and registers the handler only
  afterwards, in the \<open>read\<close> that follows: in the events of a successful
  \<open>poll\<close> the send comes before the insertion, and between the insertion and
  the erasure there are only deliveries to sinks.
\<close>

theorem poll_order:
  assumes "worker (gps s) = Some w" and "serialize s (Request T []) kWriterSize = Some out"
  shows "(\<exists>ds. history (snd (poll T message timeout s))
               = history s @ [Sent out, Inserted (fresh_token (callbacks (gps s))) T] @ ds
                 @ [Erased (fresh_token (callbacks (gps s)))]
             \<and> list_all is_delivery ds)
       \<and> (\<exists>ds. history (snd (read T message timeout s))
               = history s @ [Inserted (fresh_token (callbacks (gps s))) T] @ ds
                 @ [Erased (fresh_token (callbacks (gps s)))]
             \<and> list_all is_delivery ds)
       \<and> sends (history (snd (read T message timeout s))) = sends (history s)"
proof -
  have w: "worker (gps (worker_send out s)) = Some w"
    using assms(1) by (simp add: worker_send_fields)
  from read_history [OF w, of T message timeout]
  have "\<exists>ds. history (snd (poll T message timeout s))
               = history s @ [Sent out, Inserted (fresh_token (callbacks (gps s))) T] @ ds
                 @ [Erased (fresh_token (callbacks (gps s)))]
             \<and> list_all is_delivery ds"
    by (simp add: poll_initialised [OF assms] worker_send_fields list_all_iff)
  moreover from read_history [OF assms(1), of T message timeout]
  have "\<exists>ds. history (snd (read T message timeout s))
               = history s @ [Inserted (fresh_token (callbacks (gps s))) T] @ ds
                 @ [Erased (fresh_token (callbacks (gps s)))]
             \<and> list_all is_delivery ds"
    by (simp add: list_all_iff)
  ultimately show ?thesis by (simp add: read_sends)
qed

theorem poll_order_witness:
  "worker (gps (example_system example_gps [(5, NAV_PVT, [9])])) = Some example_worker
   \<and> serialize (example_system example_gps [(5, NAV_PVT, [9])]) (Request NAV_PVT []) kWriterSize = Some [1, 7]
   \<and> (\<exists>ds. history (snd (poll NAV_PVT [] 100 (example_system example_gps [(5, NAV_PVT, [9])])))
            = [Sent [1, 7], Inserted 0 NAV_PVT] @ ds @ [Erased 0])"
proof -
  have w: "worker (gps (example_system example_gps [(5, NAV_PVT, [9])])) = Some example_worker"
    by (simp add: example_fields)
  have c: "serialize (example_system example_gps [(5, NAV_PVT, [9])]) (Request NAV_PVT []) kWriterSize = Some [1, 7]"
    by (simp add: example_fields example_codec_small)
  from poll_order [OF w c, of "[]" 100]
  have "\<exists>ds. history (snd (poll NAV_PVT [] 100 (example_system example_gps [(5, NAV_PVT, [9])])))
            = [Sent [1, 7], Inserted 0 NAV_PVT] @ ds @ [Erased 0]"
    by (auto simp: example_fields)
  with w c show ?thesis by simp
qed

text \<open>
  C2 as claimed, that \<open>poll\<close> registers the handler before it issues the
  request, fails: on a driver with an empty registry the request is sent while no
  handler for the polled identity is registered.
\<close>

theorem poll_sends_before_registering:
  "history (snd (poll NAV_PVT [] 100 (example_system example_gps [])))
     = [Sent [1, 7], Inserted 0 NAV_PVT, Erased 0]
   \<and> \<not> listening_at_sends NAV_PVT []
         (history (snd (poll NAV_PVT [] 100 (example_system example_gps []))))"
proof -
  have "history (snd (poll NAV_PVT [] 100 (example_system example_gps [])))
     = [Sent [1, 7], Inserted 0 NAV_PVT, Erased 0]"
    by (simp add: poll_def poll_request_def read_def example_system_def example_gps_def
        example_codec_def kWriterSize_def worker_send_def callbacks_insert_def
        callbacks_erase_def timed_wait_def NAV_PVT_def handler_received_def handler_of_def)
  then show ?thesis by simp
qed

text \<open>
  C3. After \<open>read\<close> returns on an initialised driver, whether the wait
  delivered a value or timed out, the handler it registered is gone: no entry of
  the registry carries its token, the registry holds the same tokens under the
  same identities as before the call, and the call's last event is the erasure of
  the handler it inserted.
\<close>

theorem read_deregisters:
  assumes "worker (gps s) = Some w"
  shows "fresh_token (callbacks (gps s)) \<notin> set (tokens (callbacks (gps (snd (read T message timeout s)))))
       \<and> registry_keys (callbacks (gps (snd (read T message timeout s)))) = registry_keys (callbacks (gps s))
       \<and> (\<exists>ds. history (snd (read T message timeout s))
               = history s @ [Inserted (fresh_token (callbacks (gps s))) T] @ ds
                 @ [Erased (fresh_token (callbacks (gps s)))])"
proof -
  let ?tok = "fresh_token (callbacks (gps s))"
  let ?s' = "snd (read T message timeout s)"
  have k: "registry_keys (callbacks (gps ?s')) = registry_keys (callbacks (gps s))"
    by (rule read_keys)
  have "?tok \<notin> set (tokens (callbacks (gps s)))"
    by (rule fresh_token_notin)
  then have "?tok \<notin> set (tokens (callbacks (gps ?s')))"
    by (simp add: tokens_keys k)
  moreover from read_history [OF assms, of T message timeout]
  have "\<exists>ds. history ?s' = history s @ [Inserted ?tok T] @ ds @ [Erased ?tok]"
    by blast
  ultimately show ?thesis using k by simp
qed

theorem read_deregisters_witness:
  "worker (gps (example_system example_gps [(5, NAV_PVT, [9])])) = Some example_worker
   \<and> fst (fst (read NAV_PVT [] 100 (example_system example_gps [(5, NAV_PVT, [9])])))
   \<and> registry_keys (callbacks (gps (snd (read NAV_PVT [] 100 (example_system example_gps [(5, NAV_PVT, [9])]))))) = []
   \<and> \<not> fst (fst (read NAV_PVT [] 100 (example_system example_gps [])))
   \<and> registry_keys (callbacks (gps (snd (read NAV_PVT [] 100 (example_system example_gps []))))) = []"
proof -
  have w: "\<And>inb. worker (gps (example_system example_gps inb)) = Some example_worker"
    by (simp add: example_fields)
  have k: "\<And>inb. registry_keys (callbacks (gps (example_system example_gps inb))) = []"
    by (simp add: example_fields registry_keys_def)
  have 1: "registry_keys (callbacks (gps (snd (read NAV_PVT [] 100 (example_system example_gps [(5, NAV_PVT, [9])]))))) = []"
    using read_deregisters [OF w, of "[(5, NAV_PVT, [9])]" NAV_PVT "[]" 100] by (simp add: k)
  have 2: "registry_keys (callbacks (gps (snd (read NAV_PVT [] 100 (example_system example_gps []))))) = []"
    using read_deregisters [OF w, of "[]" NAV_PVT "[]" 100] by (simp add: k)
  have 3: "fst (fst (read NAV_PVT [] 100 (example_system example_gps [(5, NAV_PVT, [9])])))"
    by (simp add: read_def example_system_def example_gps_def callbacks_insert_def
        callbacks_erase_def timed_wait_def NAV_PVT_def handler_received_def handler_of_def
        readCallback_def deliver_def ACK_ACK_def ACK_NACK_def Let_def)
  have 4: "\<not> fst (fst (read NAV_PVT [] 100 (example_system example_gps [])))"
    by (simp add: read_def example_system_def example_gps_def callbacks_insert_def
        callbacks_erase_def timed_wait_def NAV_PVT_def handler_received_def handler_of_def)
  show ?thesis using 1 2 3 4 w by simp
qed

text \<open>
  C4. When the serialization of the message into the send buffer of 1024 bytes
  fails, \<open>configure\<close> returns false at once, without waiting, and hands
  nothing to the transport: no event is added, no frame is consumed and the clock
  does not move.
\<close>

theorem configure_serialization_failure:
  assumes "serialize s message 1024 = None"
  shows "\<not> fst (configure message wait s)
       \<and> history (snd (configure message wait s)) = history s
       \<and> now (snd (configure message wait s)) = now s
       \<and> inbound (snd (configure message wait s)) = inbound s"
  using assms by (simp add: configure_def kWriterSize_def split: option.splits)

theorem configure_serialization_failure_witness:
  "serialize (example_system example_gps [(7, ACK_ACK, [6, 0])]) oversized 1024 = None
   \<and> \<not> fst (configure oversized True (example_system example_gps [(7, ACK_ACK, [6, 0])]))
   \<and> history (snd (configure oversized True (example_system example_gps [(7, ACK_ACK, [6, 0])]))) = []"
proof -
  have c: "serialize (example_system example_gps [(7, ACK_ACK, [6, 0])]) oversized 1024 = None"
    by (simp add: example_fields example_codec_def oversized_def)
  from configure_serialization_failure [OF c, of True] c show ?thesis
    by (simp add: example_fields)
qed

text \<open>
  C5, as the code has it. On an initialised driver \<open>configure\<close> resets the
  acknowledgment state to WAIT before it serializes: when the serialization fails
  it returns false with the state WAIT and everything else unchanged, and when it
  succeeds the state is WAIT when the bytes are sent.
\<close>

theorem configure_reset_first:
  assumes "worker (gps s) = Some w"
  shows "(serialize s message kWriterSize = None \<longrightarrow>
            configure message wait s = (False, s\<lparr>gps := (gps s)\<lparr>acknowledge := WAIT\<rparr>\<rparr>))
       \<and> (\<forall>out. serialize s message kWriterSize = Some out \<longrightarrow>
            configure message False s
              = (True, (s\<lparr>gps := (gps s)\<lparr>acknowledge := WAIT\<rparr>\<rparr>)\<lparr>history := history s @ [Sent out]\<rparr>))"
  using assms by (simp add: configure_def worker_send_def)

theorem configure_reset_first_witness:
  "worker (gps (example_system example_gps [])) = Some example_worker
   \<and> serialize (example_system example_gps []) oversized kWriterSize = None
   \<and> acknowledge (gps (snd (configure oversized True (example_system example_gps [])))) = WAIT
   \<and> serialize (example_system example_gps []) (Config (6, 0) [1, 2]) kWriterSize = Some [6, 0, 1, 2]
   \<and> acknowledge (gps (snd (configure (Config (6, 0) [1, 2]) False (example_system example_gps [])))) = WAIT
   \<and> history (snd (configure (Config (6, 0) [1, 2]) False (example_system example_gps []))) = [Sent [6, 0, 1, 2]]"
proof -
  have w: "worker (gps (example_system example_gps [])) = Some example_worker"
    by (simp add: example_fields)
  have c1: "serialize (example_system example_gps []) oversized kWriterSize = None"
    by (simp add: example_fields example_codec_small)
  have c2: "serialize (example_system example_gps []) (Config (6, 0) [1, 2]) kWriterSize = Some [6, 0, 1, 2]"
    by (simp add: example_fields example_codec_small)
  have 1: "acknowledge (gps (snd (configure oversized True (example_system example_gps [])))) = WAIT"
    using configure_reset_first [OF w, of oversized True] c1 by simp
  have 2: "acknowledge (gps (snd (configure (Config (6, 0) [1, 2]) False (example_system example_gps [])))) = WAIT
     \<and> history (snd (configure (Config (6, 0) [1, 2]) False (example_system example_gps []))) = [Sent [6, 0, 1, 2]]"
    using configure_reset_first [OF w, of "Config (6, 0) [1, 2]" False] c2
    by (simp add: example_fields)
  show ?thesis using w c1 c2 1 2 by simp
qed

text \<open>
  C5 as claimed, that a failed serialization leaves the acknowledgment state
  unchanged, fails: a driver whose state is ACK is left in the state WAIT by a
  \<open>configure\<close> whose message does not fit the buffer.
\<close>

theorem configure_resets_before_serializing:
  "acknowledge (gps (example_system example_gps [])) = ACK
   \<and> serialize (example_system example_gps []) oversized kWriterSize = None
   \<and> configure oversized True (example_system example_gps [])
       = (False, (example_system example_gps [])\<lparr>gps := example_gps\<lparr>acknowledge := WAIT\<rparr>\<rparr>)
   \<and> acknowledge (gps (snd (configure oversized True (example_system example_gps [])))) = WAIT"
  by (simp add: configure_def example_fields example_codec_small)
    (simp add: example_system_def)

text \<open>
  C6. \<open>poll\<close> sends a request-for-data frame carrying the identity of the type
  and then performs \<open>read\<close>, whose result it returns; the request is the only
  frame it sends. When the request cannot be sent (no worker, or the request does
  not serialize), \<open>poll\<close> returns false at once: no read, no wait, the state
  unchanged.
\<close>

theorem poll_request_then_read:
  "(worker (gps s) = None \<or> serialize s (Request T []) kWriterSize = None \<longrightarrow>
      poll T message timeout s = ((False, message), s))
   \<and> (\<forall>w out. worker (gps s) = Some w \<and> serialize s (Request T []) kWriterSize = Some out \<longrightarrow>
        poll T message timeout s
          = read T message timeout (s\<lparr>history := history s @ [Sent out]\<rparr>)
        \<and> sends (history (snd (poll T message timeout s))) = sends (history s) @ [out])"
proof -
  have "poll T message timeout s = ((False, message), s)"
    if "worker (gps s) = None \<or> serialize s (Request T []) kWriterSize = None"
    using that by (auto simp: poll_def poll_request_def split: option.splits)
  moreover have "poll T message timeout s = read T message timeout (s\<lparr>history := history s @ [Sent out]\<rparr>)
        \<and> sends (history (snd (poll T message timeout s))) = sends (history s) @ [out]"
    if "worker (gps s) = Some w" "serialize s (Request T []) kWriterSize = Some out" for w out
    using poll_initialised [OF that]
    by (simp add: read_sends worker_send_fields sends_append sends_single)
      (simp add: worker_send_def)
  ultimately show ?thesis by blast
qed

theorem poll_request_then_read_witness:
  "worker (gps (example_system fresh_gps [(5, NAV_PVT, [9])])) = None
   \<and> poll NAV_PVT [] 100 (example_system fresh_gps [(5, NAV_PVT, [9])])
       = ((False, []), example_system fresh_gps [(5, NAV_PVT, [9])])
   \<and> worker (gps (example_system example_gps [(5, NAV_PVT, [9])])) = Some example_worker
   \<and> serialize (example_system example_gps [(5, NAV_PVT, [9])]) (Request NAV_PVT []) kWriterSize = Some [1, 7]
   \<and> sends (history (snd (poll NAV_PVT [] 100 (example_system example_gps [(5, NAV_PVT, [9])])))) = [[1, 7]]"
proof -
  have n: "worker (gps (example_system fresh_gps [(5, NAV_PVT, [9])])) = None"
    by (simp add: example_fields)
  have w: "worker (gps (example_system example_gps [(5, NAV_PVT, [9])])) = Some example_worker"
    by (simp add: example_fields)
  have c: "serialize (example_system example_gps [(5, NAV_PVT, [9])]) (Request NAV_PVT []) kWriterSize = Some [1, 7]"
    by (simp add: example_fields example_codec_small)
  have 1: "poll NAV_PVT [] 100 (example_system fresh_gps [(5, NAV_PVT, [9])])
       = ((False, []), example_system fresh_gps [(5, NAV_PVT, [9])])"
    using poll_request_then_read [of "example_system fresh_gps [(5, NAV_PVT, [9])]" NAV_PVT "[]" 100] n
    by simp
  have "sends (history (snd (poll NAV_PVT [] 100 (example_system example_gps [(5, NAV_PVT, [9])]))))
      = sends (history (example_system example_gps [(5, NAV_PVT, [9])])) @ [[1, 7]]"
    using poll_request_then_read [of "example_system example_gps [(5, NAV_PVT, [9])]" NAV_PVT "[]" 100] w c
    by blast
  then have 2: "sends (history (snd (poll NAV_PVT [] 100 (example_system example_gps [(5, NAV_PVT, [9])])))) = [[1, 7]]"
    by (simp add: example_fields sends_def)
  show ?thesis using n w c 1 2 by simp
qed

text \<open>
  C7. \<open>subscribe(callback, rate)\<close> first issues the rate-configuration command,
  a \<open>configure\<close> that waits for the acknowledgment. When the command fails it
  returns the null iterator and the registry holds the same handlers as before.
  When the command succeeds it registers the persistent handler for the identity
  and returns its token. On an initialised driver whose rate message serializes,
  exactly one frame is sent.
\<close>

theorem subscribe_rate_registers_on_success:
  "(\<not> fst (configure (RateConfig (fst T) (snd T) rate) True s) \<longrightarrow>
      subscribe_rate T callback rate s = (None, snd (configure (RateConfig (fst T) (snd T) rate) True s))
      \<and> registry_keys (callbacks (gps (snd (subscribe_rate T callback rate s))))
          = registry_keys (callbacks (gps s)))
   \<and> (fst (configure (RateConfig (fst T) (snd T) rate) True s) \<longrightarrow>
      fst (subscribe_rate T callback rate s) = Some (fresh_token (callbacks (gps s)))
      \<and> callbacks (gps (snd (subscribe_rate T callback rate s)))
          = callbacks (gps (snd (configure (RateConfig (fst T) (snd T) rate) True s)))
            @ [(fresh_token (callbacks (gps s)), T, Persistent callback)]
      \<and> registry_keys (callbacks (gps (snd (subscribe_rate T callback rate s))))
          = registry_keys (callbacks (gps s)) @ [(fresh_token (callbacks (gps s)), T)])
   \<and> (\<forall>w out. worker (gps s) = Some w
         \<and> serialize s (RateConfig (fst T) (snd T) rate) kWriterSize = Some out \<longrightarrow>
       sends (history (snd (subscribe_rate T callback rate s))) = sends (history s) @ [out])"
proof -
  let ?r = "configure (RateConfig (fst T) (snd T) rate) True s"
  let ?tok = "fresh_token (callbacks (gps s))"
  have k: "registry_keys (callbacks (gps (snd ?r))) = registry_keys (callbacks (gps s))"
    by (rule configure_keys)
  have tok: "fresh_token (callbacks (gps (snd ?r))) = ?tok"
    using k by (rule fresh_token_keys)
  have failed: "subscribe_rate T callback rate s = (None, snd ?r)" if "\<not> fst ?r"
    using that by (cases ?r) (simp add: subscribe_rate_def setRate_def)
  have ok: "subscribe_rate T callback rate s = subscribe T callback (snd ?r)" if "fst ?r"
    using that by (cases ?r) (simp add: subscribe_rate_def setRate_def)
  have sub: "subscribe T callback (snd ?r)
      = (Some ?tok,
         (snd ?r)\<lparr>gps := (gps (snd ?r))\<lparr>callbacks := callbacks (gps (snd ?r)) @ [(?tok, T, Persistent callback)]\<rparr>,
                  history := history (snd ?r) @ [Inserted ?tok T]\<rparr>)"
    by (simp add: subscribe_def callbacks_insert_def Let_def tok)
  have 1: "\<not> fst ?r \<longrightarrow> subscribe_rate T callback rate s = (None, snd ?r)
      \<and> registry_keys (callbacks (gps (snd (subscribe_rate T callback rate s))))
          = registry_keys (callbacks (gps s))"
    using failed k by simp
  have "registry_keys (callbacks (gps (snd ?r)) @ [(?tok, T, Persistent callback)])
      = registry_keys (callbacks (gps s)) @ [(?tok, T)]"
    using k by (simp add: registry_keys_def)
  then have 2: "fst ?r \<longrightarrow> fst (subscribe_rate T callback rate s) = Some ?tok
      \<and> callbacks (gps (snd (subscribe_rate T callback rate s)))
          = callbacks (gps (snd ?r)) @ [(?tok, T, Persistent callback)]
      \<and> registry_keys (callbacks (gps (snd (subscribe_rate T callback rate s))))
          = registry_keys (callbacks (gps s)) @ [(?tok, T)]"
    using ok sub by simp
  have 3: "sends (history (snd (subscribe_rate T callback rate s))) = sends (history s) @ [out]"
    if "worker (gps s) = Some w" "serialize s (RateConfig (fst T) (snd T) rate) kWriterSize = Some out"
    for w out
  proof (cases "fst ?r")
    case True
    then show ?thesis
      using configure_sends [OF that, of True]
      by (simp add: ok sub sends_append sends_single)
  next
    case False
    then show ?thesis
      using configure_sends [OF that, of True] by (simp add: failed)
  qed
  from 1 2 3 show ?thesis by blast
qed

theorem subscribe_rate_registers_on_success_witness:
  "\<not> fst (configure (RateConfig (fst NAV_PVT) (snd NAV_PVT) 1) True
           (example_system example_gps [(7, ACK_NACK, [6, 1])]))
   \<and> fst (subscribe_rate NAV_PVT 3 1 (example_system example_gps [(7, ACK_NACK, [6, 1])])) = None
   \<and> registry_keys (callbacks (gps (snd (subscribe_rate NAV_PVT 3 1
        (example_system example_gps [(7, ACK_NACK, [6, 1])]))))) = []
   \<and> fst (configure (RateConfig (fst NAV_PVT) (snd NAV_PVT) 1) True
           (example_system example_gps [(7, ACK_ACK, [6, 1])]))
   \<and> fst (subscribe_rate NAV_PVT 3 1 (example_system example_gps [(7, ACK_ACK, [6, 1])])) = Some 0
   \<and> callbacks (gps (snd (subscribe_rate NAV_PVT 3 1
        (example_system example_gps [(7, ACK_ACK, [6, 1])])))) = [(0, NAV_PVT, Persistent 3)]
   \<and> worker (gps (example_system example_gps [(7, ACK_ACK, [6, 1])])) = Some example_worker
   \<and> serialize (example_system example_gps [(7, ACK_ACK, [6, 1])])
        (RateConfig (fst NAV_PVT) (snd NAV_PVT) 1) kWriterSize = Some [6, 1, 1, 7, 1]
   \<and> sends (history (snd (subscribe_rate NAV_PVT 3 1
        (example_system example_gps [(7, ACK_ACK, [6, 1])])))) = [[6, 1, 1, 7, 1]]"
proof -
  let ?nack = "example_system example_gps [(7, ACK_NACK, [6, 1])]"
  let ?ack = "example_system example_gps [(7, ACK_ACK, [6, 1])]"
  have id: "fst NAV_PVT = 1" "snd NAV_PVT = 7" by (simp_all add: NAV_PVT_def)
  have a: "\<not> fst (configure (RateConfig (fst NAV_PVT) (snd NAV_PVT) 1) True ?nack)"
    by (simp add: id example_rate_nack)
  have b: "fst (configure (RateConfig (fst NAV_PVT) (snd NAV_PVT) 1) True ?ack)"
    by (simp add: id example_rate_ack)
  have w: "worker (gps ?ack) = Some example_worker" by (simp add: example_fields)
  have c: "serialize ?ack (RateConfig (fst NAV_PVT) (snd NAV_PVT) 1) kWriterSize = Some [6, 1, 1, 7, 1]"
    by (simp add: id example_fields example_codec_small)
  have e: "registry_keys (callbacks (gps ?nack)) = []" "fresh_token (callbacks (gps ?ack)) = 0"
    "sends (history ?ack) = []"
    by (simp_all add: example_fields registry_keys_def sends_def)
  have n: "subscribe_rate NAV_PVT 3 1 ?nack
        = (None, snd (configure (RateConfig (fst NAV_PVT) (snd NAV_PVT) 1) True ?nack))
      \<and> registry_keys (callbacks (gps (snd (subscribe_rate NAV_PVT 3 1 ?nack))))
        = registry_keys (callbacks (gps ?nack))"
    using subscribe_rate_registers_on_success [of NAV_PVT 1 ?nack 3] a by blast
  have 1: "fst (subscribe_rate NAV_PVT 3 1 ?nack) = None
      \<and> registry_keys (callbacks (gps (snd (subscribe_rate NAV_PVT 3 1 ?nack)))) = []"
    using conjunct1 [OF n] conjunct2 [OF n] by (simp only: e fst_conv)
  have "fst (subscribe_rate NAV_PVT 3 1 ?ack) = Some (fresh_token (callbacks (gps ?ack)))
      \<and> callbacks (gps (snd (subscribe_rate NAV_PVT 3 1 ?ack)))
          = callbacks (gps (snd (configure (RateConfig (fst NAV_PVT) (snd NAV_PVT) 1) True ?ack)))
            @ [(fresh_token (callbacks (gps ?ack)), NAV_PVT, Persistent 3)]"
    using subscribe_rate_registers_on_success [of NAV_PVT 1 ?ack 3] b by blast
  then have 2: "fst (subscribe_rate NAV_PVT 3 1 ?ack) = Some 0
      \<and> callbacks (gps (snd (subscribe_rate NAV_PVT 3 1 ?ack))) = [(0, NAV_PVT, Persistent 3)]"
    by (simp add: e id example_rate_ack) (simp add: example_gps_def)
  have "sends (history (snd (subscribe_rate NAV_PVT 3 1 ?ack))) = sends (history ?ack) @ [[6, 1, 1, 7, 1]]"
    using subscribe_rate_registers_on_success [of NAV_PVT 1 ?ack 3] w c by blast
  then have 3: "sends (history (snd (subscribe_rate NAV_PVT 3 1 ?ack))) = [[6, 1, 1, 7, 1]]"
    by (simp add: e)
  show ?thesis using a b w c 1 2 3 by simp
qed

text \<open>
  C8. On a driver with no worker, \<open>read\<close> and \<open>configure\<close> return false and
  leave the whole state as it was: no handler registered, nothing sent, no wait.
\<close>

theorem uninitialized_calls_return_false:
  assumes "worker (gps s) = None"
  shows "read T message timeout s = ((False, message), s)
       \<and> configure cfg wait s = (False, s)"
  using assms by (simp add: read_def configure_def)

theorem uninitialized_calls_return_false_witness:
  "worker (gps (example_system fresh_gps [(5, NAV_PVT, [9])])) = None
   \<and> read NAV_PVT [] 100 (example_system fresh_gps [(5, NAV_PVT, [9])])
       = ((False, []), example_system fresh_gps [(5, NAV_PVT, [9])])
   \<and> configure (Config (6, 0) [1, 2]) True (example_system fresh_gps [(5, NAV_PVT, [9])])
       = (False, example_system fresh_gps [(5, NAV_PVT, [9])])"
proof -
  have n: "worker (gps (example_system fresh_gps [(5, NAV_PVT, [9])])) = None"
    by (simp add: example_fields)
  from uninitialized_calls_return_false [OF n, of NAV_PVT "[]" 100 "Config (6, 0) [1, 2]" True] n
  show ?thesis by simp
qed

text \<open>
  C9. \<open>initialize\<close> on a driver that has a worker returns the driver
  unchanged, so a second call after one that set the worker changes nothing; and
  the result of the generic template does not depend on its baudrate, uart_in and
  uart_out arguments.
\<close>

theorem initialize_twice:
  "(worker g \<noteq> None \<longrightarrow> initialize iw st b ui uo g = g)
   \<and> (worker (initialize iw st b ui uo g) \<noteq> None \<longrightarrow>
        initialize iw st' b' ui' uo' (initialize iw st b ui uo g) = initialize iw st b ui uo g)
   \<and> initialize iw st b ui uo g = initialize iw st b' ui' uo' g"
  by (simp add: initialize_def)

theorem initialize_twice_witness:
  "worker example_gps \<noteq> None
   \<and> initialize (\<lambda>w g. g\<lparr>worker := Some w\<rparr>) \<lparr>stream_name = ''tcp'', stream_is_open = False\<rparr> 115200 7 3 example_gps
       = example_gps
   \<and> worker (initialize (\<lambda>w g. g\<lparr>worker := Some w\<rparr>) \<lparr>stream_name = ''tcp'', stream_is_open = False\<rparr> 115200 7 3 fresh_gps) \<noteq> None
   \<and> initialize (\<lambda>w g. g\<lparr>worker := Some w\<rparr>) \<lparr>stream_name = ''udp'', stream_is_open = True\<rparr> 9600 1 1
        (initialize (\<lambda>w g. g\<lparr>worker := Some w\<rparr>) \<lparr>stream_name = ''tcp'', stream_is_open = False\<rparr> 115200 7 3 fresh_gps)
       = fresh_gps\<lparr>worker := Some (AsyncWorker \<lparr>stream_name = ''tcp'', stream_is_open = False\<rparr>)\<rparr>"
proof -
  let ?iw = "\<lambda>w g. g\<lparr>worker := Some w\<rparr>"
  let ?tcp = "\<lparr>stream_name = ''tcp'', stream_is_open = False\<rparr>"
  let ?udp = "\<lparr>stream_name = ''udp'', stream_is_open = True\<rparr>"
  have a: "worker example_gps \<noteq> None" by (simp add: example_gps_def)
  have f: "initialize ?iw ?tcp 115200 7 3 fresh_gps = fresh_gps\<lparr>worker := Some (AsyncWorker ?tcp)\<rparr>"
    by (simp add: initialize_def fresh_gps_def)
  have b: "worker (initialize ?iw ?tcp 115200 7 3 fresh_gps) \<noteq> None"
    by (simp add: f)
  have 1: "initialize ?iw ?tcp 115200 7 3 example_gps = example_gps"
    using initialize_twice [of example_gps ?iw ?tcp 115200 7 3] a by blast
  have "initialize ?iw ?udp 9600 1 1 (initialize ?iw ?tcp 115200 7 3 fresh_gps)
      = initialize ?iw ?tcp 115200 7 3 fresh_gps"
    using initialize_twice [of fresh_gps ?iw ?tcp 115200 7 3 ?udp 9600 1 1] b by blast
  then have 2: "initialize ?iw ?udp 9600 1 1 (initialize ?iw ?tcp 115200 7 3 fresh_gps)
      = fresh_gps\<lparr>worker := Some (AsyncWorker ?tcp)\<rparr>"
    by (simp only: f)
  show ?thesis using a b 1 2 by simp
qed

text \<open>
  C10. \<open>isOpen\<close> has a defined result exactly when \<open>isInitialized\<close> holds
  (with a worker it is the worker's \<open>isOpen\<close>); \<open>isInitialized\<close> and
  \<open>isConfigured\<close> are total, and \<open>isConfigured\<close> implies
  \<open>isInitialized\<close>.
\<close>

theorem isOpen_needs_worker:
  "(isOpen g \<noteq> None) = isInitialized g
   \<and> (isOpen g = None) = (worker g = None)
   \<and> (isConfigured g \<longrightarrow> isInitialized g)
   \<and> (\<forall>w. worker g = Some w \<longrightarrow> isOpen g = Some (worker_isOpen w))"
  by (simp add: isOpen_def isInitialized_def isConfigured_def split: option.splits)

theorem isOpen_needs_worker_witness:
  "isConfigured example_gps \<and> isInitialized example_gps \<and> isOpen example_gps = Some True
   \<and> \<not> isInitialized fresh_gps \<and> \<not> isConfigured fresh_gps \<and> isOpen fresh_gps = None"
proof -
  have c: "isConfigured example_gps"
    by (simp add: isConfigured_def isInitialized_def example_gps_def)
  have w: "worker example_gps = Some example_worker" by (simp add: example_gps_def)
  have n: "worker fresh_gps = None" by (simp add: fresh_gps_def)
  have i: "isInitialized example_gps"
    using isOpen_needs_worker [of example_gps] c by blast
  have "isOpen example_gps = Some (worker_isOpen example_worker)"
    using isOpen_needs_worker [of example_gps] w by blast
  then have 1: "isOpen example_gps = Some True"
    by (simp add: example_worker_def)
  have 2: "isOpen fresh_gps = None"
    using isOpen_needs_worker [of fresh_gps] n by blast
  have 3: "\<not> isInitialized fresh_gps"
    using isOpen_needs_worker [of fresh_gps] 2 by blast
  have 4: "\<not> isConfigured fresh_gps" using 3 by (simp add: isConfigured_def)
  show ?thesis using c i 1 2 3 4 by simp
qed

end
